theory Spec2Isabelle
  imports Main "HOL-Library.Char_ord" "HOL-Library.List_Lexorder" "HOL-Library.Sublist"
begin

section \<open>Python text operations used by \<^verbatim>\<open>scripts/add-frontmatter.py\<close>\<close>

text \<open>
  Text is a \<^typ>\<open>string\<close>, that is a list of characters, compared by code point as Python
  compares \<^verbatim>\<open>str\<close> values. A character is one of the code points 0 to 255, and the
  whitespace class and the case mappings are Python's on these code points. A file's
  content is the text that \<^verbatim>\<open>open(..., 'r', encoding='utf-8')\<close> hands to the script.
\<close>

definition newline :: char where
  "newline = CHR 0x0A"

definition dquote :: char where
  "dquote = CHR 0x22"

text \<open>\<^verbatim>\<open>str.isspace\<close>: TAB, LF, VT, FF, CR, FS, GS, RS, US, the space, NEL (U+0085) and the
  no-break space (U+00A0). \<^verbatim>\<open>str.strip\<close> removes these, and the class \<^verbatim>\<open>\s\<close> of \<^verbatim>\<open>re\<close> on
  a \<^verbatim>\<open>str\<close> pattern is the same one.\<close>

definition is_space :: "char \<Rightarrow> bool" where
  "is_space c =
     (let n = (of_char c :: nat)
      in (9 \<le> n \<and> n \<le> 13) \<or> (28 \<le> n \<and> n \<le> 32) \<or> n = 133 \<or> n = 160)"

text \<open>The upper-case letters: A to Z, and U+00C0 to U+00DE without the multiplication sign.
  Each has its lower case 32 code points above it.\<close>

definition is_upper :: "char \<Rightarrow> bool" where
  "is_upper c =
     (let n = (of_char c :: nat)
      in (65 \<le> n \<and> n \<le> 90) \<or> (192 \<le> n \<and> n \<le> 214) \<or> (216 \<le> n \<and> n \<le> 222))"

text \<open>The lower-case letters whose upper case is a character of the type, 32 code points
  below: a to z, and U+00E0 to U+00FE without the division sign.\<close>

definition is_lower :: "char \<Rightarrow> bool" where
  "is_lower c =
     (let n = (of_char c :: nat)
      in (97 \<le> n \<and> n \<le> 122) \<or> (224 \<le> n \<and> n \<le> 246) \<or> (248 \<le> n \<and> n \<le> 254))"

text \<open>The cased characters: the letters above, the ordinal indicators U+00AA and U+00BA
  (cased, with no case mapping), and the micro sign U+00B5, the sharp s U+00DF and
  U+00FF. The title case of the last three is not a code point below 256 (U+039C, the two
  letters \<^verbatim>\<open>Ss\<close>, U+0178): \<open>upper_char\<close> leaves them as they are, and that is the one place
  where a result of Python's does not fit the type.\<close>

definition is_cased :: "char \<Rightarrow> bool" where
  "is_cased c =
     (let n = (of_char c :: nat)
      in is_upper c \<or> is_lower c \<or> n = 170 \<or> n = 181 \<or> n = 186 \<or> n = 223 \<or> n = 255)"

definition lower_char :: "char \<Rightarrow> char" where
  "lower_char c = (if is_upper c then char_of ((of_char c :: nat) + 32) else c)"

definition upper_char :: "char \<Rightarrow> char" where
  "upper_char c = (if is_lower c then char_of ((of_char c :: nat) - 32) else c)"

text \<open>\<^verbatim>\<open>s.lower()\<close>\<close>

definition str_lower :: "string \<Rightarrow> string" where
  "str_lower s = map lower_char s"

text \<open>\<^verbatim>\<open>s.strip()\<close>\<close>

definition str_strip :: "string \<Rightarrow> string" where
  "str_strip s = rev (dropWhile is_space (rev (dropWhile is_space s)))"

text \<open>\<^verbatim>\<open>sub in s\<close>\<close>

fun str_in :: "string \<Rightarrow> string \<Rightarrow> bool" where
  "str_in sub [] = (sub = [])"
| "str_in sub (c # cs) = (prefix sub (c # cs) \<or> str_in sub cs)"

text \<open>\<^verbatim>\<open>s.replace(old, new)\<close>: every non-overlapping occurrence, from the left.\<close>

function str_replace :: "string \<Rightarrow> string \<Rightarrow> string \<Rightarrow> string" where
  "str_replace old new [] = (if old = [] then new else [])"
| "str_replace old new (c # cs) =
     (if old = [] then new @ c # str_replace old new cs
      else if prefix old (c # cs) then new @ str_replace old new (drop (length old) (c # cs))
      else c # str_replace old new cs)"
  by pat_completeness auto
termination
  by (relation "measure (\<lambda>(old, new, s). length s)") auto

text \<open>\<^verbatim>\<open>s.title()\<close>: a character is title-cased when the character before it is not cased,
  and lower-cased otherwise; both mappings leave an uncased character as it is.\<close>

fun title_from :: "bool \<Rightarrow> string \<Rightarrow> string" where
  "title_from prev_cased [] = []"
| "title_from prev_cased (c # cs) =
     (if prev_cased then lower_char c else upper_char c) # title_from (is_cased c) cs"

definition str_title :: "string \<Rightarrow> string" where
  "str_title s = title_from False s"

text \<open>\<^verbatim>\<open>Path.name\<close> and \<^verbatim>\<open>Path.stem\<close> of pathlib, on the path's string: the last component
  (none for the path \<^verbatim>\<open>.\<close>, which has no component), and that component without its last
  suffix (a dot that is neither the first nor the last character of the name starts the
  suffix).\<close>

definition path_name :: "string \<Rightarrow> string" where
  "path_name p = (if p = ''.'' then [] else rev (takeWhile (\<lambda>c. c \<noteq> CHR ''/'') (rev p)))"

definition path_stem :: "string \<Rightarrow> string" where
  "path_stem p =
     (let name = path_name p;
          after_dot = takeWhile (\<lambda>c. c \<noteq> CHR ''.'') (rev name)
      in if CHR ''.'' \<in> set name
         then (let i = length name - length after_dot - 1
               in if 0 < i \<and> i < length name - 1 then take i name else name)
         else name)"

text \<open>\<^verbatim>\<open>re.sub(r'\s+', ' ', s)\<close>: every maximal run of whitespace becomes one space.\<close>

function re_sub_ws :: "string \<Rightarrow> string" where
  "re_sub_ws [] = []"
| "re_sub_ws (c # cs) =
     (if is_space c then CHR '' '' # re_sub_ws (dropWhile is_space cs)
      else c # re_sub_ws cs)"
  by pat_completeness auto
termination
  by (relation "measure length") (auto simp: length_dropWhile_le less_Suc_eq_le)

text \<open>\<^verbatim>\<open>repr\<close> of a list of strings, as the f-string prints \<^verbatim>\<open>{tags}\<close>. Every tag the script
  can produce is a plain word, whose \<^verbatim>\<open>repr\<close> is the word in single quotes.\<close>

definition repr_str :: "string \<Rightarrow> string" where
  "repr_str s = [CHR 0x27] @ s @ [CHR 0x27]"

fun join_comma :: "string list \<Rightarrow> string" where
  "join_comma [] = []"
| "join_comma [x] = x"
| "join_comma (x # y # ys) = x @ '', '' @ join_comma (y # ys)"

definition repr_list :: "string list \<Rightarrow> string" where
  "repr_list xs = ''['' @ join_comma (map repr_str xs) @ '']''"

section \<open>The fragment of Python's \<^verbatim>\<open>re\<close> that the script uses\<close>

text \<open>
  \<^verbatim>\<open>re\<close> is a backtracking matcher: a quantifier tries its preferred number of repetitions
  first (as many as possible when greedy, as few as possible when lazy), an alternation
  tries its branches from the left, an optional group is tried before it is skipped, and
  \<^verbatim>\<open>re.search\<close> returns the first match found at the leftmost position that has one.
  The constructors are the pieces the two patterns of the script are made of, with the flag
  \<^verbatim>\<open>re.MULTILINE\<close> built into \<open>Bol\<close> and \<open>Eol\<close>; a character class is a predicate, so
  \<^verbatim>\<open>.\<close> is \<open>\<lambda>c. c \<noteq> newline\<close> without \<^verbatim>\<open>re.DOTALL\<close> and \<open>\<lambda>c. True\<close> with it.
\<close>

datatype rx =
    Bol
  | Eol
  | Chr char
  | PlusG "char \<Rightarrow> bool"
  | PlusL "char \<Rightarrow> bool"
  | StarL "char \<Rightarrow> bool"
  | Seq rx rx
  | Alt rx rx
  | Opt rx
  | Grp rx

text \<open>A matcher configuration: whether the position is at the start of a line, the text
  still to be read, and what group 1 has captured.\<close>

type_synonym cfg = "bool \<times> string \<times> string option"

definition one_char :: "(char \<Rightarrow> bool) \<Rightarrow> (cfg \<Rightarrow> 'r option) \<Rightarrow> cfg \<Rightarrow> 'r option" where
  "one_char P k cf =
     (case cf of
        (b, [], g) \<Rightarrow> None
      | (b, c # cs, g) \<Rightarrow> if P c then k (c = newline, cs, g) else None)"

fun star_greedy :: "(char \<Rightarrow> bool) \<Rightarrow> (cfg \<Rightarrow> 'r option) \<Rightarrow> cfg \<Rightarrow> 'r option" where
  "star_greedy P k (b, [], g) = k (b, [], g)"
| "star_greedy P k (b, c # cs, g) =
     (if P c
      then (case star_greedy P k (c = newline, cs, g) of
              Some r \<Rightarrow> Some r
            | None \<Rightarrow> k (b, c # cs, g))
      else k (b, c # cs, g))"

fun star_lazy :: "(char \<Rightarrow> bool) \<Rightarrow> (cfg \<Rightarrow> 'r option) \<Rightarrow> cfg \<Rightarrow> 'r option" where
  "star_lazy P k (b, [], g) = k (b, [], g)"
| "star_lazy P k (b, c # cs, g) =
     (case k (b, c # cs, g) of
        Some r \<Rightarrow> Some r
      | None \<Rightarrow> if P c then star_lazy P k (c = newline, cs, g) else None)"

text \<open>\<open>rx_match r k cf\<close> tries the ways \<open>r\<close> can match at \<open>cf\<close> in the order of preference and
  returns the first result the continuation \<open>k\<close> accepts.\<close>

primrec rx_match :: "rx \<Rightarrow> (cfg \<Rightarrow> 'r option) \<Rightarrow> cfg \<Rightarrow> 'r option" where
  "rx_match Bol k = (\<lambda>(b, s, g). if b then k (b, s, g) else None)"
| "rx_match Eol k = (\<lambda>(b, s, g). if s = [] \<or> hd s = newline then k (b, s, g) else None)"
| "rx_match (Chr x) k = one_char (\<lambda>c. c = x) k"
| "rx_match (PlusG P) k = one_char P (star_greedy P k)"
| "rx_match (PlusL P) k = one_char P (star_lazy P k)"
| "rx_match (StarL P) k = star_lazy P k"
| "rx_match (Seq r1 r2) k = rx_match r1 (rx_match r2 k)"
| "rx_match (Alt r1 r2) k =
     (\<lambda>cf. case rx_match r1 k cf of Some r \<Rightarrow> Some r | None \<Rightarrow> rx_match r2 k cf)"
| "rx_match (Opt r1) k =
     (\<lambda>cf. case rx_match r1 k cf of Some r \<Rightarrow> Some r | None \<Rightarrow> k cf)"
| "rx_match (Grp r1) k =
     (\<lambda>(b, s, g). rx_match r1
        (\<lambda>(b', s', g'). k (b', s', Some (take (length s - length s') s))) (b, s, g))"

text \<open>\<^verbatim>\<open>re.search\<close>: the start positions from the left, the end of the text included. The
  result is \<^verbatim>\<open>match.group(1)\<close> of the match found.\<close>

fun rx_search_from :: "rx \<Rightarrow> bool \<Rightarrow> string \<Rightarrow> string option option" where
  "rx_search_from r b [] = rx_match r (\<lambda>(b', s', g). Some g) (b, [], None)"
| "rx_search_from r b (c # cs) =
     (case rx_match r (\<lambda>(b', s', g). Some g) (b, c # cs, None) of
        Some m \<Rightarrow> Some m
      | None \<Rightarrow> rx_search_from r (c = newline) cs)"

definition rx_search :: "rx \<Rightarrow> string \<Rightarrow> string option option" where
  "rx_search r s = rx_search_from r True s"

text \<open>The pattern \<^verbatim>\<open>r'^#\s+(.+)$'\<close> with \<^verbatim>\<open>re.MULTILINE\<close>.\<close>

definition title_rx :: rx where
  "title_rx =
     Seq Bol (Seq (Chr (CHR ''#'')) (Seq (PlusG is_space)
       (Seq (Grp (PlusG (\<lambda>c. c \<noteq> newline))) Eol)))"

text \<open>The pattern \<^verbatim>\<open>r'^(?:#.*?\n+)?(.+?)(?:\n\n|\n##)'\<close> with
  \<^verbatim>\<open>re.MULTILINE | re.DOTALL\<close>.\<close>

definition desc_rx :: rx where
  "desc_rx =
     Seq Bol
      (Seq (Opt (Seq (Chr (CHR ''#'')) (Seq (StarL (\<lambda>c. True)) (PlusG (\<lambda>c. c = newline)))))
        (Seq (Grp (PlusL (\<lambda>c. True)))
          (Alt (Seq (Chr newline) (Chr newline))
               (Seq (Chr newline) (Seq (Chr (CHR ''#'')) (Chr (CHR ''#'')))))))"

section \<open>The curated table\<close>

text \<open>A metadata record has the keys of the entries of \<^verbatim>\<open>METADATA_MAP\<close>; \<^verbatim>\<open>difficulty\<close> is
  read with \<^verbatim>\<open>meta.get\<close> and may be \<^verbatim>\<open>None\<close>.\<close>

record metadata =
  title :: string
  description :: string
  category :: string
  tags :: "string list"
  difficulty :: "string option"

definition METADATA_MAP :: "string \<rightharpoonup> metadata" where
  "METADATA_MAP = map_of [
      (''adr/002-three-tier-hierarchy.md'',
       \<lparr>title = ''ADR-002: Three-Tier BBS Hierarchy'',
        description = ''Decision to use three-tier hierarchy (Zone/Section/Forum) for BBS organization'',
        category = ''reference'',
        tags = [''adr'', ''architecture'', ''nostr'', ''channels'', ''design''],
        difficulty = Some ''advanced''\<rparr>),
      (''adr/003-gcp-cloud-run-infrastructure.md'',
       \<lparr>title = ''ADR-003: GCP Cloud Run Infrastructure'',
        description = ''Decision to deploy relay on Google Cloud Run with PostgreSQL storage'',
        category = ''reference'',
        tags = [''adr'', ''deployment'', ''gcp'', ''infrastructure'', ''devops''],
        difficulty = Some ''advanced''\<rparr>),
      (''adr/004-zone-based-access-control.md'',
       \<lparr>title = ''ADR-004: Zone-Based Access Control'',
        description = ''Decision to implement zone-based cohort access control using admin whitelists'',
        category = ''reference'',
        tags = [''adr'', ''security'', ''access-control'', ''zones'', ''admin''],
        difficulty = Some ''advanced''\<rparr>),
      (''adr/005-nip-44-encryption-mandate.md'',
       \<lparr>title = ''ADR-005: NIP-44 Encryption Mandate'',
        description = ''Decision to mandate NIP-44 encryption for all new encrypted content'',
        category = ''reference'',
        tags = [''adr'', ''security'', ''encryption'', ''nostr'', ''nip-44''],
        difficulty = Some ''advanced''\<rparr>),
      (''adr/006-client-side-wasm-search.md'',
       \<lparr>title = ''ADR-006: Client-Side WASM Search'',
        description = ''Decision to implement client-side semantic search using WASM and HNSW indexing'',
        category = ''reference'',
        tags = [''adr'', ''search'', ''wasm'', ''performance'', ''pwa''],
        difficulty = Some ''advanced''\<rparr>),
      (''adr/007-sveltekit-ndk-frontend.md'',
       \<lparr>title = ''ADR-007: SvelteKit + NDK Frontend'',
        description = ''Decision to use SvelteKit with NDK for frontend development'',
        category = ''reference'',
        tags = [''adr'', ''architecture'', ''frontend'', ''svelte'', ''ndk''],
        difficulty = Some ''intermediate''\<rparr>),
      (''adr/008-postgresql-relay-storage.md'',
       \<lparr>title = ''ADR-008: PostgreSQL Relay Storage'',
        description = ''Decision to use PostgreSQL for relay event storage with strfry'',
        category = ''reference'',
        tags = [''adr'', ''database'', ''postgresql'', ''relay'', ''storage''],
        difficulty = Some ''advanced''\<rparr>),
      (''adr/009-user-registration-flow.md'',
       \<lparr>title = ''ADR-009: User Registration Flow'',
        description = ''Decision on simplified user registration with password-based key derivation'',
        category = ''reference'',
        tags = [''adr'', ''authentication'', ''user'', ''registration'', ''security''],
        difficulty = Some ''intermediate''\<rparr>)]"

section \<open>Heuristic inference\<close>

text \<open>\<^verbatim>\<open>extract_title_from_heading\<close>: \<^verbatim>\<open>match.group(1).strip() if match else None\<close>.\<close>

definition extract_title_from_heading :: "string \<Rightarrow> string option" where
  "extract_title_from_heading content =
     (case rx_search title_rx content of
        Some m \<Rightarrow> map_option str_strip m
      | None \<Rightarrow> None)"

definition infer_category :: "string \<Rightarrow> string" where
  "infer_category filepath =
     (let path_str = str_lower filepath in
      if str_in ''tutorial'' path_str \<or> str_in ''getting-started'' path_str then ''tutorial''
      else if str_in ''howto'' path_str \<or> str_in ''guide'' path_str then ''howto''
      else if str_in ''reference'' path_str \<or> str_in ''api'' path_str \<or> str_in ''adr'' path_str
        then ''reference''
      else if str_in ''explanation'' path_str \<or> str_in ''architecture'' path_str
              \<or> str_in ''ddd'' path_str
        then ''explanation''
      else if str_in ''user'' path_str then ''tutorial''
      else if str_in ''developer'' path_str then ''reference''
      else ''reference'')"

text \<open>\<^verbatim>\<open>if cond: tags.add(tag)\<close>\<close>

definition add_when :: "bool \<Rightarrow> string \<Rightarrow> string set \<Rightarrow> string set" where
  "add_when cond tag tgs = (if cond then insert tag tgs else tgs)"

text \<open>The substring rules of \<^verbatim>\<open>infer_tags\<close> (audience, topic, type and feature tags), in the
  order of the source, on the lower-cased path and title.\<close>

definition rule_tags :: "string \<Rightarrow> string \<Rightarrow> string set" where
  "rule_tags path_str title_lower =
     (let tgs = {};
          tgs = add_when (str_in ''user'' path_str) ''user'' tgs;
          tgs = add_when (str_in ''developer'' path_str \<or> str_in ''dev'' path_str) ''developer'' tgs;
          tgs = add_when (str_in ''admin'' path_str) ''admin'' tgs;
          tgs = add_when (str_in ''nostr'' path_str \<or> str_in ''nostr'' title_lower) ''nostr'' tgs;
          tgs = add_when (str_in ''auth'' path_str \<or> str_in ''auth'' title_lower)
                  ''authentication'' tgs;
          tgs = add_when (str_in ''message'' path_str \<or> str_in ''dm'' path_str) ''messaging'' tgs;
          tgs = add_when (str_in ''channel'' path_str \<or> str_in ''chat'' path_str) ''channels'' tgs;
          tgs = add_when (str_in ''security'' path_str \<or> str_in ''security'' title_lower)
                  ''security'' tgs;
          tgs = add_when (str_in ''deploy'' path_str) ''deployment'' tgs;
          tgs = add_when (str_in ''adr'' path_str) ''adr'' tgs;
          tgs = add_when (str_in ''architecture'' path_str \<or> str_in ''architecture'' title_lower)
                  ''architecture'' tgs;
          tgs = add_when (str_in ''ddd'' path_str) ''ddd'' tgs;
          tgs = add_when (str_in ''guide'' path_str \<or> str_in ''guide'' title_lower) ''guide'' tgs;
          tgs = add_when (str_in ''reference'' path_str \<or> str_in ''api'' path_str)
                  ''reference'' tgs;
          tgs = add_when (str_in ''calendar'' path_str \<or> str_in ''event'' path_str)
                  ''calendar'' tgs;
          tgs = add_when (str_in ''search'' path_str) ''search'' tgs;
          tgs = add_when (str_in ''zone'' path_str) ''zones'' tgs;
          tgs = add_when (str_in ''pwa'' path_str) ''pwa'' tgs
      in tgs)"

text \<open>\<^verbatim>\<open>infer_tags\<close>: the rules, then the two size checks in the order of the source, then
  \<^verbatim>\<open>sorted(list(tags))\<close>. The title may be \<^verbatim>\<open>None\<close> or empty.\<close>

definition infer_tags :: "string \<Rightarrow> string option \<Rightarrow> string list" where
  "infer_tags filepath ttl =
     (let path_str = str_lower filepath;
          title_lower = (case ttl of None \<Rightarrow> [] | Some t \<Rightarrow> if t = [] then [] else str_lower t);
          tgs = rule_tags path_str title_lower;
          tgs = add_when (card tgs = 0) ''documentation'' tgs;
          tgs = add_when (card tgs = 1) ''guide'' tgs
      in sorted_list_of_set tgs)"

definition infer_difficulty :: "string \<Rightarrow> string option" where
  "infer_difficulty filepath =
     (let path_str = str_lower filepath in
      if str_in ''user'' path_str \<or> str_in ''getting-started'' path_str then Some ''beginner''
      else if str_in ''adr'' path_str \<or> str_in ''architecture'' path_str \<or> str_in ''ddd'' path_str
        then Some ''advanced''
      else if str_in ''developer'' path_str then Some ''intermediate''
      else None)"

section \<open>Resolving and rendering the front matter\<close>

definition docs_dir :: string where
  "docs_dir = ''/home/devuser/workspace/project2/docs''"

text \<open>\<^verbatim>\<open>relative_path\<close> of \<^verbatim>\<open>create_frontmatter\<close>: the prefix is removed wherever it occurs.\<close>

definition relative_path :: "string \<Rightarrow> string" where
  "relative_path filepath = str_replace ''/home/devuser/workspace/project2/docs/'' [] filepath"

text \<open>The first half of \<^verbatim>\<open>create_frontmatter\<close>: the curated entry of the relative path when
  there is one, the inferred fields otherwise. \<^verbatim>\<open>filepath\<close> is \<^verbatim>\<open>str(filepath)\<close>. Group 1
  takes part in every match of the two patterns, so \<^verbatim>\<open>group(1)\<close> is a string.\<close>

definition resolve_metadata :: "string \<Rightarrow> string \<Rightarrow> metadata" where
  "resolve_metadata filepath content =
     (case METADATA_MAP (relative_path filepath) of
        Some meta \<Rightarrow> meta
      | None \<Rightarrow>
         (let heading = extract_title_from_heading content;
              ttl = (if heading = None \<or> heading = Some []
                     then str_title (str_replace ''_'' '' '' (str_replace ''-'' '' ''
                            (path_stem filepath)))
                     else the heading);
              desc_match = rx_search desc_rx content;
              desc = (case desc_match of
                        Some m \<Rightarrow> take 200 (re_sub_ws (str_strip (the m)))
                      | None \<Rightarrow> ttl @ '' documentation'')
          in \<lparr>title = ttl,
              description = desc,
              category = infer_category filepath,
              tags = infer_tags filepath (Some ttl),
              difficulty = infer_difficulty filepath\<rparr>))"

text \<open>The second half: the f-string. \<open>today\<close> is \<^verbatim>\<open>date.today().isoformat()\<close>.\<close>

definition render_frontmatter :: "string \<Rightarrow> metadata \<Rightarrow> string" where
  "render_frontmatter today m =
     ''---'' @ [newline]
     @ ''title: '' @ [dquote] @ title m @ [dquote] @ [newline]
     @ ''description: '' @ [dquote] @ description m @ [dquote] @ [newline]
     @ ''category: '' @ category m @ [newline]
     @ ''tags: '' @ repr_list (tags m) @ [newline]
     @ (case difficulty m of
          None \<Rightarrow> []
        | Some d \<Rightarrow> if d = [] then [] else ''difficulty: '' @ d @ [newline])
     @ ''last-updated: '' @ today @ [newline]
     @ ''---'' @ [newline, newline]"

definition create_frontmatter :: "string \<Rightarrow> string \<Rightarrow> string \<Rightarrow> string" where
  "create_frontmatter today filepath content =
     render_frontmatter today (resolve_metadata filepath content)"

section \<open>Files\<close>

text \<open>The file system maps a path to the text of the file there. Opening a path that has
  no file raises; \<^verbatim>\<open>relative_to\<close> raises on a path outside the base.\<close>

type_synonym files = "string \<rightharpoonup> string"

datatype error = FileNotFoundError | ValueError

text \<open>\<^verbatim>\<open>f.readline()\<close> on a freshly opened file: the text up to and including the first
  newline.\<close>

fun readline :: "string \<Rightarrow> string" where
  "readline [] = []"
| "readline (c # cs) = (if c = newline then [c] else c # readline cs)"

definition has_frontmatter :: "files \<Rightarrow> string \<Rightarrow> error + bool" where
  "has_frontmatter fs filepath =
     (case fs filepath of
        None \<Rightarrow> Inl FileNotFoundError
      | Some text \<Rightarrow> Inr (str_strip (readline text) = ''---''))"

text \<open>\<^verbatim>\<open>add_frontmatter_to_file\<close> returns the file system it leaves and what it returns or
  raises.\<close>

definition add_frontmatter_to_file :: "string \<Rightarrow> files \<Rightarrow> string \<Rightarrow> files \<times> (error + bool)" where
  "add_frontmatter_to_file today fs filepath =
     (case has_frontmatter fs filepath of
        Inl e \<Rightarrow> (fs, Inl e)
      | Inr True \<Rightarrow> (fs, Inr False)
      | Inr False \<Rightarrow>
         (case fs filepath of
            None \<Rightarrow> (fs, Inl FileNotFoundError)
          | Some content \<Rightarrow>
              (fs(filepath \<mapsto> create_frontmatter today filepath content @ content), Inr True)))"

text \<open>\<^verbatim>\<open>md_file.relative_to(docs_dir)\<close>, as a string.\<close>

definition relative_to :: "string \<Rightarrow> string \<Rightarrow> string option" where
  "relative_to p base =
     (if p = base then Some ''.''
      else if prefix (base @ ''/'') p then Some (drop (length base + 1) p)
      else None)"

text \<open>The loop of \<^verbatim>\<open>main\<close> over \<open>md_files\<close>, the paths that \<^verbatim>\<open>docs_dir.rglob('*.md')\<close> yields in
  the order it yields them, with \<^verbatim>\<open>updated_files\<close> as accumulator. An exception ends the
  run with the file system as it is then.\<close>

fun main_loop :: "string \<Rightarrow> files \<Rightarrow> string list \<Rightarrow> string list \<Rightarrow> files \<times> (error + string list)" where
  "main_loop today fs [] updated_files = (fs, Inr updated_files)"
| "main_loop today fs (md_file # rest) updated_files =
     (case add_frontmatter_to_file today fs md_file of
        (fs', Inl e) \<Rightarrow> (fs', Inl e)
      | (fs', Inr False) \<Rightarrow> main_loop today fs' rest updated_files
      | (fs', Inr True) \<Rightarrow>
          (case relative_to md_file docs_dir of
             None \<Rightarrow> (fs', Inl ValueError)
           | Some rel \<Rightarrow> main_loop today fs' rest (updated_files @ [rel])))"

text \<open>\<^verbatim>\<open>main\<close>: the file system after the run and the list \<^verbatim>\<open>updated_files\<close>, whose length
  is the count the run reports.\<close>

definition main :: "string \<Rightarrow> files \<Rightarrow> string list \<Rightarrow> files \<times> (error + string list)" where
  "main today fs md_files = main_loop today fs md_files []"

section \<open>Group 1 takes part in every match\<close>

text \<open>In both patterns the group is not optional: a search that finds a match returns the text
  of the group, so \<^verbatim>\<open>match.group(1)\<close> is never \<^verbatim>\<open>None\<close> where the script calls \<^verbatim>\<open>strip\<close> on
  it.\<close>

lemma orelse_total:
  "x \<noteq> Some None \<Longrightarrow> y \<noteq> Some None \<Longrightarrow> (case x of Some r \<Rightarrow> Some r | None \<Rightarrow> y) \<noteq> Some None"
  by (cases x) auto

lemma one_char_total:
  "(\<And>cf. k cf \<noteq> Some None) \<Longrightarrow> one_char P k cf \<noteq> Some None"
  by (simp add: one_char_def split: prod.split list.split)

lemma star_greedy_total:
  "(\<And>cf. k cf \<noteq> Some None) \<Longrightarrow> star_greedy P k cf \<noteq> Some None"
  by (induction P k cf rule: star_greedy.induct) (simp_all add: orelse_total)

lemma star_lazy_total:
  "(\<And>cf. k cf \<noteq> Some None) \<Longrightarrow> star_lazy P k cf \<noteq> Some None"
proof (induction P k cf rule: star_lazy.induct)
  case (1 P k b g)
  then show ?case by simp
next
  case (2 P k b c cs g)
  show ?case
  proof (cases "k (b, c # cs, g)")
    case None
    then show ?thesis using 2 by simp
  next
    case (Some x)
    then have "x \<noteq> None" using 2(2)[of "(b, c # cs, g)"] by auto
    then show ?thesis using Some by simp
  qed
qed

lemma rx_match_total:
  "(\<And>cf. k cf \<noteq> Some None) \<Longrightarrow> rx_match r k cf \<noteq> Some None"
proof (induction r arbitrary: k cf)
  case (Seq r1 r2)
  have "\<And>cf. rx_match r2 k cf \<noteq> Some None" using Seq.IH(2) Seq.prems by blast
  then show ?case using Seq.IH(1) by simp
next
  case (Alt r1 r2)
  then show ?case by (simp add: orelse_total)
next
  case (Opt r)
  then show ?case by (simp add: orelse_total)
next
  case (Grp r)
  obtain b s g where cf: "cf = (b, s, g)" by (cases cf) auto
  have "\<And>cf'. (\<lambda>(b', s', g'). k (b', s', Some (take (length s - length s') s))) cf' \<noteq> Some None"
    using Grp.prems by (simp split: prod.split)
  then have "rx_match r (\<lambda>(b', s', g'). k (b', s', Some (take (length s - length s') s))) (b, s, g)
      \<noteq> Some None"
    by (rule Grp.IH)
  then show ?case using cf by simp
qed (simp_all add: one_char_total star_greedy_total star_lazy_total split: prod.split)

lemma rx_match_grp_total:
  assumes "\<And>b s g. k (b, s, Some g) \<noteq> Some None"
  shows "rx_match (Grp r) k cf \<noteq> Some None"
proof -
  obtain b s g where cf: "cf = (b, s, g)" by (cases cf) auto
  have "\<And>cf'. (\<lambda>(b', s', g'). k (b', s', Some (take (length s - length s') s))) cf' \<noteq> Some None"
    using assms by (simp split: prod.split)
  then have "rx_match r (\<lambda>(b', s', g'). k (b', s', Some (take (length s - length s') s))) (b, s, g)
      \<noteq> Some None"
    by (rule rx_match_total)
  then show ?thesis using cf by simp
qed

lemma rx_search_from_total:
  assumes "\<And>cf. rx_match r (\<lambda>(b', s', g). Some g) cf \<noteq> Some None"
  shows "rx_search_from r b s \<noteq> Some None"
  using assms by (induction s arbitrary: b) (simp_all add: orelse_total)

lemma title_rx_group: "rx_search title_rx s \<noteq> Some None"
proof -
  let ?k0 = "\<lambda>(b' :: bool, s' :: string, g :: string option). Some g"
  have "\<And>b s g. rx_match Eol ?k0 (b, s, Some g) \<noteq> Some None" by simp
  then have g: "\<And>cf. rx_match (Grp (PlusG (\<lambda>c. c \<noteq> newline))) (rx_match Eol ?k0) cf \<noteq> Some None"
    by (rule rx_match_grp_total)
  have "\<And>cf. rx_match (PlusG is_space)
      (rx_match (Grp (PlusG (\<lambda>c. c \<noteq> newline))) (rx_match Eol ?k0)) cf \<noteq> Some None"
    by (rule rx_match_total) (rule g)
  then have "\<And>cf. rx_match (Chr (CHR ''#'')) (rx_match (PlusG is_space)
      (rx_match (Grp (PlusG (\<lambda>c. c \<noteq> newline))) (rx_match Eol ?k0))) cf \<noteq> Some None"
    by (rule rx_match_total)
  then have "\<And>cf. rx_match Bol (rx_match (Chr (CHR ''#'')) (rx_match (PlusG is_space)
      (rx_match (Grp (PlusG (\<lambda>c. c \<noteq> newline))) (rx_match Eol ?k0)))) cf \<noteq> Some None"
    by (rule rx_match_total)
  then have "\<And>cf. rx_match title_rx ?k0 cf \<noteq> Some None"
    unfolding title_rx_def rx_match.simps(7) .
  then show ?thesis unfolding rx_search_def by (rule rx_search_from_total)
qed

lemma desc_rx_group: "rx_search desc_rx s \<noteq> Some None"
proof -
  let ?k0 = "\<lambda>(b' :: bool, s' :: string, g :: string option). Some g"
  let ?end = "Alt (Seq (Chr newline) (Chr newline))
               (Seq (Chr newline) (Seq (Chr (CHR ''#'')) (Chr (CHR ''#''))))"
  let ?head = "Seq (Chr (CHR ''#'')) (Seq (StarL (\<lambda>c. True)) (PlusG (\<lambda>c. c = newline)))"
  have "\<And>b s g. rx_match ?end ?k0 (b, s, Some g) \<noteq> Some None"
    by (simp add: one_char_def orelse_total split: list.split)
  then have g: "\<And>cf. rx_match (Grp (PlusL (\<lambda>c. True))) (rx_match ?end ?k0) cf \<noteq> Some None"
    by (rule rx_match_grp_total)
  have "\<And>cf. rx_match (Opt ?head) (rx_match (Grp (PlusL (\<lambda>c. True))) (rx_match ?end ?k0)) cf
      \<noteq> Some None"
    by (rule rx_match_total) (rule g)
  then have "\<And>cf. rx_match Bol (rx_match (Opt ?head)
      (rx_match (Grp (PlusL (\<lambda>c. True))) (rx_match ?end ?k0))) cf \<noteq> Some None"
    by (rule rx_match_total)
  then have "\<And>cf. rx_match desc_rx ?k0 cf \<noteq> Some None"
    unfolding desc_rx_def rx_match.simps(7) .
  then show ?thesis unfolding rx_search_def by (rule rx_search_from_total)
qed

section \<open>Substrings, the documentation root and the tag rules\<close>

lemma str_in_iff: "str_in sub s \<longleftrightarrow> (\<exists>p q. s = p @ sub @ q)"
proof (induction s)
  case Nil
  show ?case by auto
next
  case (Cons c cs)
  show ?case
  proof
    assume "str_in sub (c # cs)"
    then consider "prefix sub (c # cs)" | "str_in sub cs" by auto
    then show "\<exists>p q. c # cs = p @ sub @ q"
    proof cases
      case 1
      then obtain q where "c # cs = sub @ q" by (auto simp: prefix_def)
      then have "c # cs = [] @ sub @ q" by simp
      then show ?thesis by blast
    next
      case 2
      then obtain p q where "cs = p @ sub @ q" using Cons.IH by auto
      then have "c # cs = (c # p) @ sub @ q" by simp
      then show ?thesis by blast
    qed
  next
    assume "\<exists>p q. c # cs = p @ sub @ q"
    then obtain p q where pq: "c # cs = p @ sub @ q" by auto
    show "str_in sub (c # cs)"
    proof (cases p)
      case Nil
      then have "prefix sub (c # cs)" using pq by (simp add: prefix_def)
      then show ?thesis by simp
    next
      case (Cons a p')
      then have "cs = p' @ sub @ q" using pq by simp
      then have "str_in sub cs" using Cons.IH by blast
      then show ?thesis by simp
    qed
  qed
qed

lemma str_in_append_left: "str_in sub a \<Longrightarrow> str_in sub (a @ b)"
  unfolding str_in_iff by (metis append.assoc)

lemma str_lower_append: "str_lower (a @ b) = str_lower a @ str_lower b"
  by (simp add: str_lower_def)

lemma docs_dir_user: "str_in ''user'' (str_lower (docs_dir @ rest))"
proof -
  have "str_in ''user'' (str_lower docs_dir)" by code_simp
  then show ?thesis by (simp add: str_lower_append str_in_append_left)
qed

lemma docs_dir_dev: "str_in ''dev'' (str_lower (docs_dir @ rest))"
proof -
  have "str_in ''dev'' (str_lower docs_dir)" by code_simp
  then show ?thesis by (simp add: str_lower_append str_in_append_left)
qed

lemma mem_add_when: "x \<in> add_when c y S \<longleftrightarrow> (c \<and> x = y) \<or> x \<in> S"
  by (auto simp: add_when_def)

lemma finite_add_when: "finite (add_when c y S) = finite S"
  by (simp add: add_when_def)

lemma finite_rule_tags: "finite (rule_tags p t)"
  by (simp add: rule_tags_def Let_def finite_add_when)

lemma rule_tags_user: "str_in ''user'' p \<Longrightarrow> ''user'' \<in> rule_tags p t"
  by (simp add: rule_tags_def Let_def mem_add_when)

lemma rule_tags_developer: "str_in ''dev'' p \<Longrightarrow> ''developer'' \<in> rule_tags p t"
  by (simp add: rule_tags_def Let_def mem_add_when)

lemma card_two: "finite S \<Longrightarrow> a \<in> S \<Longrightarrow> b \<in> S \<Longrightarrow> a \<noteq> b \<Longrightarrow> 2 \<le> card S"
proof -
  assume f: "finite S" and a: "a \<in> S" and b: "b \<in> S" and ne: "a \<noteq> b"
  have "card {a, b} \<le> card S" using f a b by (intro card_mono) auto
  then show ?thesis using ne by simp
qed

lemma infer_tags_sorted: "sorted (infer_tags p t) \<and> distinct (infer_tags p t)"
  by (simp add: infer_tags_def Let_def)

lemma infer_tags_rooted:
  assumes "str_in ''user'' (str_lower p)" "str_in ''dev'' (str_lower p)"
  shows "set (infer_tags p t) = rule_tags (str_lower p) (case t of None \<Rightarrow> [] | Some x \<Rightarrow> if x = [] then [] else str_lower x)"
    and "2 \<le> length (infer_tags p t)"
proof -
  let ?R = "rule_tags (str_lower p) (case t of None \<Rightarrow> [] | Some x \<Rightarrow> if x = [] then [] else str_lower x)"
  have fin: "finite ?R" by (rule finite_rule_tags)
  have "2 \<le> card ?R"
    using card_two[OF fin rule_tags_user[OF assms(1)] rule_tags_developer[OF assms(2)]] by simp
  then have eq: "infer_tags p t = sorted_list_of_set ?R"
    by (simp add: infer_tags_def Let_def add_when_def)
  show "set (infer_tags p t) = ?R" using fin eq by simp
  show "2 \<le> length (infer_tags p t)" using \<open>2 \<le> card ?R\<close> eq by simp
qed

lemma str_replace_prefix:
  assumes "old \<noteq> []"
  shows "str_replace old new (old @ s) = new @ str_replace old new s"
proof -
  obtain c cs where old: "old = c # cs" using assms by (cases old) auto
  have "str_replace old new (c # (cs @ s)) = new @ str_replace old new (drop (length old) (c # (cs @ s)))"
    using assms old by (simp del: drop.simps)
  moreover have "drop (length old) (c # (cs @ s)) = s" using old by simp
  ultimately show ?thesis using old by simp
qed

lemma relative_path_docs: "relative_path (docs_dir @ ''/'' @ rel) = relative_path rel"
proof -
  have e: "docs_dir @ ''/'' @ rel = ''/home/devuser/workspace/project2/docs/'' @ rel"
    by (simp add: docs_dir_def)
  have "str_replace ''/home/devuser/workspace/project2/docs/'' [] (''/home/devuser/workspace/project2/docs/'' @ rel)
      = [] @ str_replace ''/home/devuser/workspace/project2/docs/'' [] rel"
    by (rule str_replace_prefix) simp
  then show ?thesis unfolding relative_path_def e by simp
qed

lemma curated_keys:
  assumes "METADATA_MAP rel = Some meta"
  shows "rel \<in> set [''adr/002-three-tier-hierarchy.md'', ''adr/003-gcp-cloud-run-infrastructure.md'',
     ''adr/004-zone-based-access-control.md'', ''adr/005-nip-44-encryption-mandate.md'',
     ''adr/006-client-side-wasm-search.md'', ''adr/007-sveltekit-ndk-frontend.md'',
     ''adr/008-postgresql-relay-storage.md'', ''adr/009-user-registration-flow.md'']"
proof (rule ccontr)
  assume "\<not> ?thesis"
  then have "METADATA_MAP rel = None" by (simp add: METADATA_MAP_def)
  then show False using assms by simp
qed

lemma relative_path_keys:
  "\<forall>k \<in> set [''adr/002-three-tier-hierarchy.md'', ''adr/003-gcp-cloud-run-infrastructure.md'',
     ''adr/004-zone-based-access-control.md'', ''adr/005-nip-44-encryption-mandate.md'',
     ''adr/006-client-side-wasm-search.md'', ''adr/007-sveltekit-ndk-frontend.md'',
     ''adr/008-postgresql-relay-storage.md'', ''adr/009-user-registration-flow.md'']. relative_path k = k"
  by code_simp

lemma curated_tags:
  "\<forall>k \<in> set [''adr/002-three-tier-hierarchy.md'', ''adr/003-gcp-cloud-run-infrastructure.md'',
     ''adr/004-zone-based-access-control.md'', ''adr/005-nip-44-encryption-mandate.md'',
     ''adr/006-client-side-wasm-search.md'', ''adr/007-sveltekit-ndk-frontend.md'',
     ''adr/008-postgresql-relay-storage.md'', ''adr/009-user-registration-flow.md''].
     distinct (tags (the (METADATA_MAP k))) \<and> length (tags (the (METADATA_MAP k))) = 5"
  by code_simp

section \<open>Tags of a processed file\<close>

text \<open>
  C1, as the claim states it, fails: the run processes \<^verbatim>\<open>docs_dir / rel\<close>, and for the
  curated file \<^verbatim>\<open>adr/002-three-tier-hierarchy.md\<close> the tags that are rendered are the stored
  list \<^verbatim>\<open>['adr', 'architecture', 'nostr', 'channels', 'design']\<close>, which is not sorted.
\<close>

theorem processed_tags_counterexample:
  "\<not> sorted (tags (resolve_metadata (docs_dir @ ''/'' @ ''adr/002-three-tier-hierarchy.md'') []))"
  by code_simp

text \<open>
  C1, amended: for every file \<^verbatim>\<open>docs_dir / rel\<close> that a run processes, the tags of the resolved
  metadata have no duplicates and at least two entries; when the file has no curated entry
  they are sorted as well. (A curated entry's tags are rendered in the order the table stores
  them.)
\<close>

theorem processed_tags:
  "distinct (tags (resolve_metadata (docs_dir @ ''/'' @ rel) content))
   \<and> 2 \<le> length (tags (resolve_metadata (docs_dir @ ''/'' @ rel) content))
   \<and> (METADATA_MAP (relative_path (docs_dir @ ''/'' @ rel)) = None
        \<longrightarrow> sorted (tags (resolve_metadata (docs_dir @ ''/'' @ rel) content)))"
proof (cases "METADATA_MAP (relative_path (docs_dir @ ''/'' @ rel))")
  case None
  let ?p = "docs_dir @ ''/'' @ rel"
  obtain t where tg: "tags (resolve_metadata ?p content) = infer_tags ?p t"
    using None by (simp add: resolve_metadata_def Let_def)
  show ?thesis
    using tg infer_tags_sorted[of ?p t] infer_tags_rooted(2)[OF docs_dir_user docs_dir_dev, of "''/'' @ rel" t]
    by simp
next
  case (Some meta)
  let ?p = "docs_dir @ ''/'' @ rel"
  have r: "resolve_metadata ?p content = meta" using Some by (simp add: resolve_metadata_def)
  have k: "relative_path ?p \<in> set [''adr/002-three-tier-hierarchy.md'', ''adr/003-gcp-cloud-run-infrastructure.md'',
     ''adr/004-zone-based-access-control.md'', ''adr/005-nip-44-encryption-mandate.md'',
     ''adr/006-client-side-wasm-search.md'', ''adr/007-sveltekit-ndk-frontend.md'',
     ''adr/008-postgresql-relay-storage.md'', ''adr/009-user-registration-flow.md'']"
    by (rule curated_keys[OF Some])
  have "distinct (tags (the (METADATA_MAP (relative_path ?p)))) \<and> length (tags (the (METADATA_MAP (relative_path ?p)))) = 5"
    using k curated_tags by blast
  then show ?thesis using r Some by simp
qed

text \<open>C1, amended, at the file \<^verbatim>\<open>guide.md\<close> under the root, which has no curated entry.\<close>

theorem processed_tags_witness:
  "METADATA_MAP (relative_path (docs_dir @ ''/'' @ ''guide.md'')) = None
   \<and> tags (resolve_metadata (docs_dir @ ''/'' @ ''guide.md'') []) = [''developer'', ''guide'', ''user'']
   \<and> sorted (tags (resolve_metadata (docs_dir @ ''/'' @ ''guide.md'') []))
   \<and> distinct (tags (resolve_metadata (docs_dir @ ''/'' @ ''guide.md'') []))
   \<and> 2 \<le> length (tags (resolve_metadata (docs_dir @ ''/'' @ ''guide.md'') []))"
proof -
  have h: "METADATA_MAP (relative_path (docs_dir @ ''/'' @ ''guide.md'')) = None" by code_simp
  have e: "tags (resolve_metadata (docs_dir @ ''/'' @ ''guide.md'') []) = [''developer'', ''guide'', ''user'']"
    by code_simp
  show ?thesis using h e processed_tags[of "''guide.md''" "[]"] by simp
qed

section \<open>The example \<^verbatim>\<open>developer/auth-setup.md\<close>\<close>

text \<open>
  C2: the claim expects category \<^verbatim>\<open>reference\<close> and difficulty \<^verbatim>\<open>intermediate\<close> for
  \<^verbatim>\<open>developer/auth-setup.md\<close> under the documentation root with first heading
  \<^verbatim>\<open># Auth Setup\<close>. The inference functions give these values on the path relative to the
  root, but \<^verbatim>\<open>create_frontmatter\<close> hands them the whole path, in which \<^verbatim>\<open>devuser\<close> contains
  \<^verbatim>\<open>user\<close>: the resolved category is \<^verbatim>\<open>tutorial\<close> and the difficulty \<^verbatim>\<open>beginner\<close>.
\<close>

theorem auth_setup_under_root:
  "category (resolve_metadata (docs_dir @ ''/'' @ ''developer/auth-setup.md'') ''# Auth Setup'') = ''tutorial''
   \<and> difficulty (resolve_metadata (docs_dir @ ''/'' @ ''developer/auth-setup.md'') ''# Auth Setup'') = Some ''beginner''
   \<and> tags (resolve_metadata (docs_dir @ ''/'' @ ''developer/auth-setup.md'') ''# Auth Setup'')
       = [''authentication'', ''developer'', ''user'']
   \<and> infer_category ''developer/auth-setup.md'' = ''reference''
   \<and> infer_difficulty ''developer/auth-setup.md'' = Some ''intermediate''"
  by code_simp

section \<open>Every heuristic file of a run is tagged from the root\<close>

text \<open>
  C3: for every file \<^verbatim>\<open>docs_dir / rel\<close> that is resolved heuristically (its relative path has
  no curated entry), the tags contain both \<^verbatim>\<open>user\<close> and \<^verbatim>\<open>developer\<close> and the difficulty is
  \<^verbatim>\<open>beginner\<close>, whatever the relative path and the content are.
\<close>

theorem heuristic_tags_from_root:
  assumes "METADATA_MAP (relative_path (docs_dir @ ''/'' @ rel)) = None"
  shows "''user'' \<in> set (tags (resolve_metadata (docs_dir @ ''/'' @ rel) content))
       \<and> ''developer'' \<in> set (tags (resolve_metadata (docs_dir @ ''/'' @ rel) content))
       \<and> difficulty (resolve_metadata (docs_dir @ ''/'' @ rel) content) = Some ''beginner''"
proof -
  let ?p = "docs_dir @ ''/'' @ rel"
  have u: "str_in ''user'' (str_lower ?p)" by (rule docs_dir_user)
  have d: "str_in ''dev'' (str_lower ?p)" by (rule docs_dir_dev)
  obtain t where tg: "tags (resolve_metadata ?p content) = infer_tags ?p t"
    and df: "difficulty (resolve_metadata ?p content) = infer_difficulty ?p"
    using assms by (simp add: resolve_metadata_def Let_def)
  have "''user'' \<in> set (infer_tags ?p t)" "''developer'' \<in> set (infer_tags ?p t)"
    using infer_tags_rooted(1)[OF u d] rule_tags_user[OF u] rule_tags_developer[OF d] by auto
  moreover have "infer_difficulty ?p = Some ''beginner''"
    using u by (simp add: infer_difficulty_def Let_def)
  ultimately show ?thesis using tg df by simp
qed

text \<open>C3 at \<^verbatim>\<open>developer/auth-setup.md\<close>.\<close>

theorem heuristic_tags_from_root_witness:
  "METADATA_MAP (relative_path (docs_dir @ ''/'' @ ''developer/auth-setup.md'')) = None
   \<and> ''user'' \<in> set (tags (resolve_metadata (docs_dir @ ''/'' @ ''developer/auth-setup.md'') ''# Auth Setup''))
   \<and> ''developer'' \<in> set (tags (resolve_metadata (docs_dir @ ''/'' @ ''developer/auth-setup.md'') ''# Auth Setup''))
   \<and> difficulty (resolve_metadata (docs_dir @ ''/'' @ ''developer/auth-setup.md'') ''# Auth Setup'') = Some ''beginner''"
proof -
  have h: "METADATA_MAP (relative_path (docs_dir @ ''/'' @ ''developer/auth-setup.md'')) = None"
    by code_simp
  show ?thesis using h heuristic_tags_from_root[OF h, of "''# Auth Setup''"] by simp
qed

section \<open>Curated entries\<close>

text \<open>
  C4: when the path relative to the documentation root is a key of the curated table, the
  resolved metadata is the table's entry itself, with every field as stored, and the block
  that is rendered is the rendering of that entry.
\<close>

theorem curated_entry_verbatim:
  assumes "METADATA_MAP rel = Some meta"
  shows "resolve_metadata (docs_dir @ ''/'' @ rel) content = meta
       \<and> create_frontmatter today (docs_dir @ ''/'' @ rel) content = render_frontmatter today meta"
proof -
  have "relative_path rel = rel" using curated_keys[OF assms] relative_path_keys by blast
  then have "relative_path (docs_dir @ ''/'' @ rel) = rel" by (simp only: relative_path_docs)
  then have "resolve_metadata (docs_dir @ ''/'' @ rel) content = meta"
    using assms by (simp add: resolve_metadata_def)
  then show ?thesis by (simp add: create_frontmatter_def)
qed

text \<open>C4 at \<^verbatim>\<open>adr/002-three-tier-hierarchy.md\<close>.\<close>

theorem curated_entry_verbatim_witness:
  "METADATA_MAP ''adr/002-three-tier-hierarchy.md'' =
     Some \<lparr>title = ''ADR-002: Three-Tier BBS Hierarchy'',
        description = ''Decision to use three-tier hierarchy (Zone/Section/Forum) for BBS organization'',
        category = ''reference'',
        tags = [''adr'', ''architecture'', ''nostr'', ''channels'', ''design''],
        difficulty = Some ''advanced''\<rparr>
   \<and> resolve_metadata (docs_dir @ ''/'' @ ''adr/002-three-tier-hierarchy.md'') ''# Some heading'' =
     \<lparr>title = ''ADR-002: Three-Tier BBS Hierarchy'',
        description = ''Decision to use three-tier hierarchy (Zone/Section/Forum) for BBS organization'',
        category = ''reference'',
        tags = [''adr'', ''architecture'', ''nostr'', ''channels'', ''design''],
        difficulty = Some ''advanced''\<rparr>"
proof -
  have h: "METADATA_MAP ''adr/002-three-tier-hierarchy.md'' =
     Some \<lparr>title = ''ADR-002: Three-Tier BBS Hierarchy'',
        description = ''Decision to use three-tier hierarchy (Zone/Section/Forum) for BBS organization'',
        category = ''reference'',
        tags = [''adr'', ''architecture'', ''nostr'', ''channels'', ''design''],
        difficulty = Some ''advanced''\<rparr>"
    by (simp add: METADATA_MAP_def)
  show ?thesis using h curated_entry_verbatim[OF h, of "''# Some heading''" "''2026-11-03''"] by simp
qed

section \<open>The two size checks of \<^verbatim>\<open>infer_tags\<close>\<close>




section \<open>Files that start with the delimiter\<close>

text \<open>A file is marked when \<^verbatim>\<open>has_frontmatter\<close> answers \<^verbatim>\<open>True\<close> for it. The loop of \<^verbatim>\<open>main\<close>
  leaves a marked file as it is and marked, and marks every file it gets through.\<close>

lemma is_space_newline: "is_space newline"
  by code_simp

lemma readline_takeWhile:
  "readline t = takeWhile (\<lambda>c. c \<noteq> newline) t @ (if newline \<in> set t then [newline] else [])"
  by (induction t) auto

lemma str_strip_newline: "str_strip (l @ [newline]) = str_strip l"
proof (cases "\<forall>c\<in>set l. is_space c")
  case True
  then have a: "dropWhile is_space (l @ [newline]) = []" and b: "dropWhile is_space l = []"
    by (auto simp: dropWhile_eq_Nil_conv is_space_newline)
  show ?thesis unfolding str_strip_def a b by simp
next
  case False
  then have "dropWhile is_space (l @ [newline]) = dropWhile is_space l @ [newline]"
    by (simp add: dropWhile_append)
  then show ?thesis by (simp add: str_strip_def is_space_newline)
qed

lemma strip_readline: "str_strip (readline t) = str_strip (takeWhile (\<lambda>c. c \<noteq> newline) t)"
  by (simp add: readline_takeWhile str_strip_newline)

lemma strip_delimiter: "str_strip ''---'' = ''---''"
  by code_simp

lemma readline_rendered: "readline (render_frontmatter today m @ t) = ''---'' @ [newline]"
proof -
  have "CHR ''-'' \<noteq> newline" by code_simp
  then show ?thesis by (simp add: render_frontmatter_def)
qed

lemma created_has_delimiter:
  "str_strip (readline (create_frontmatter today p t @ t)) = ''---''"
  unfolding create_frontmatter_def readline_rendered
  using str_strip_newline[of "''---''"] strip_delimiter by simp

lemma add_frontmatter_to_file_cases:
  "add_frontmatter_to_file today fs p =
     (case fs p of
        None \<Rightarrow> (fs, Inl FileNotFoundError)
      | Some t \<Rightarrow>
          if str_strip (readline t) = ''---'' then (fs, Inr False)
          else (fs(p \<mapsto> create_frontmatter today p t @ t), Inr True))"
  by (simp add: add_frontmatter_to_file_def has_frontmatter_def split: option.splits)

lemma has_frontmatter_True:
  "has_frontmatter fs q = Inr True \<longleftrightarrow> (\<exists>t. fs q = Some t \<and> str_strip (readline t) = ''---'')"
  by (auto simp: has_frontmatter_def split: option.splits)

lemma add_keeps_marked:
  assumes "add_frontmatter_to_file today fs p = (fs', r)"
    and "has_frontmatter fs q = Inr True"
  shows "has_frontmatter fs' q = Inr True \<and> fs' q = fs q"
  using assms
  by (auto simp: add_frontmatter_to_file_cases has_frontmatter_True split: option.splits if_splits)

lemma add_marks_file:
  assumes "add_frontmatter_to_file today fs p = (fs', Inr b)"
  shows "has_frontmatter fs' p = Inr True"
  using assms
  by (auto simp: add_frontmatter_to_file_cases has_frontmatter_True created_has_delimiter
      split: option.splits if_splits)

lemma add_updates_unmarked:
  assumes "add_frontmatter_to_file today fs p = (fs', Inr True)"
  shows "has_frontmatter fs p \<noteq> Inr True"
  using assms
  by (auto simp: add_frontmatter_to_file_cases has_frontmatter_True split: option.splits if_splits)

lemma add_skips_marked:
  assumes "has_frontmatter fs p = Inr True"
  shows "add_frontmatter_to_file today fs p = (fs, Inr False)"
  using assms by (auto simp: add_frontmatter_to_file_cases has_frontmatter_True)

lemma main_loop_keeps_marked:
  "main_loop today fs md_files upd = (fs', r) \<Longrightarrow> has_frontmatter fs q = Inr True
     \<Longrightarrow> has_frontmatter fs' q = Inr True \<and> fs' q = fs q"
proof (induction md_files arbitrary: fs upd)
  case Nil
  then show ?case by simp
next
  case (Cons f rest)
  obtain fs1 r1 where step: "add_frontmatter_to_file today fs f = (fs1, r1)"
    by (cases "add_frontmatter_to_file today fs f") auto
  have k: "has_frontmatter fs1 q = Inr True \<and> fs1 q = fs q"
    using add_keeps_marked[OF step Cons.prems(2)] .
  show ?case
  proof (cases r1)
    case (Inl e)
    then show ?thesis using Cons.prems(1) step k by simp
  next
    case (Inr b)
    show ?thesis
    proof (cases b)
      case False
      then have "main_loop today fs1 rest upd = (fs', r)" using Cons.prems(1) step Inr by simp
      then show ?thesis using Cons.IH k by metis
    next
      case True
      show ?thesis
      proof (cases "relative_to f docs_dir")
        case None
        then show ?thesis using Cons.prems(1) step Inr True k by simp
      next
        case (Some rel)
        then have "main_loop today fs1 rest (upd @ [rel]) = (fs', r)"
          using Cons.prems(1) step Inr True by simp
        then show ?thesis using Cons.IH k by metis
      qed
    qed
  qed
qed

lemma main_loop_marks_all:
  "main_loop today fs md_files upd = (fs', Inr upd') \<Longrightarrow> f \<in> set md_files
     \<Longrightarrow> has_frontmatter fs' f = Inr True"
proof (induction md_files arbitrary: fs upd)
  case Nil
  then show ?case by simp
next
  case (Cons g rest)
  obtain fs1 r1 where step: "add_frontmatter_to_file today fs g = (fs1, r1)"
    by (cases "add_frontmatter_to_file today fs g") auto
  show ?case
  proof (cases r1)
    case (Inl e)
    then show ?thesis using Cons.prems(1) step by simp
  next
    case (Inr b)
    have marked: "has_frontmatter fs1 g = Inr True" using add_marks_file step Inr by blast
    obtain upd1 where tail: "main_loop today fs1 rest upd1 = (fs', Inr upd')"
      using Cons.prems(1) step Inr
      by (cases b; cases "relative_to g docs_dir") auto
    show ?thesis
    proof (cases "f = g")
      case True
      then show ?thesis using main_loop_keeps_marked[OF tail marked] by simp
    next
      case False
      then have "f \<in> set rest" using Cons.prems(2) by simp
      then show ?thesis using Cons.IH[OF tail] by simp
    qed
  qed
qed

lemma main_loop_all_marked:
  "(\<And>f. f \<in> set md_files \<Longrightarrow> has_frontmatter fs f = Inr True)
     \<Longrightarrow> main_loop today fs md_files upd = (fs, Inr upd)"
  by (induction md_files) (simp_all add: add_skips_marked)

lemma relative_to_below:
  assumes "prefix (docs_dir @ ''/'') f"
  shows "relative_to f docs_dir = Some (drop (length docs_dir + 1) f)
       \<and> f = docs_dir @ ''/'' @ drop (length docs_dir + 1) f"
proof -
  obtain x where x: "f = (docs_dir @ ''/'') @ x" using assms by (auto simp: prefix_def)
  then have "f \<noteq> docs_dir" by simp
  then show ?thesis using assms x by (simp add: relative_to_def)
qed

lemma main_loop_not_counted:
  "main_loop today fs md_files upd = (fs', Inr upd') \<Longrightarrow> has_frontmatter fs p = Inr True
     \<Longrightarrow> (\<And>f. f \<in> set md_files \<Longrightarrow> prefix (docs_dir @ ''/'') f)
     \<Longrightarrow> prefix (docs_dir @ ''/'') p
     \<Longrightarrow> drop (length docs_dir + 1) p \<notin> set upd
     \<Longrightarrow> drop (length docs_dir + 1) p \<notin> set upd'"
proof (induction md_files arbitrary: fs upd)
  case Nil
  then show ?case by simp
next
  case (Cons g rest)
  obtain fs1 r1 where step: "add_frontmatter_to_file today fs g = (fs1, r1)"
    by (cases "add_frontmatter_to_file today fs g") auto
  have k: "has_frontmatter fs1 p = Inr True"
    using add_keeps_marked[OF step Cons.prems(2)] by simp
  have below: "\<And>f. f \<in> set rest \<Longrightarrow> prefix (docs_dir @ ''/'') f" using Cons.prems(3) by simp
  show ?case
  proof (cases r1)
    case (Inl e)
    then show ?thesis using Cons.prems(1) step by simp
  next
    case (Inr b)
    show ?thesis
    proof (cases b)
      case False
      then have "main_loop today fs1 rest upd = (fs', Inr upd')"
        using Cons.prems(1) step Inr by simp
      then show ?thesis using Cons.IH[OF _ k below Cons.prems(4) Cons.prems(5)] by simp
    next
      case True
      have g: "relative_to g docs_dir = Some (drop (length docs_dir + 1) g)"
        "g = docs_dir @ ''/'' @ drop (length docs_dir + 1) g"
        using relative_to_below[of g] Cons.prems(3) by simp_all
      have pp: "p = docs_dir @ ''/'' @ drop (length docs_dir + 1) p"
        using relative_to_below[OF Cons.prems(4)] by simp
      have "add_frontmatter_to_file today fs g = (fs1, Inr True)" using step Inr True by simp
      then have "has_frontmatter fs g \<noteq> Inr True" by (rule add_updates_unmarked)
      then have "g \<noteq> p" using Cons.prems(2) by auto
      then have ne: "drop (length docs_dir + 1) g \<noteq> drop (length docs_dir + 1) p"
        using g(2) pp by metis
      have "main_loop today fs1 rest (upd @ [drop (length docs_dir + 1) g]) = (fs', Inr upd')"
        using Cons.prems(1) step Inr True g(1) by simp
      moreover have "drop (length docs_dir + 1) p \<notin> set (upd @ [drop (length docs_dir + 1) g])"
        using Cons.prems(5) ne by simp
      ultimately show ?thesis using Cons.IH[OF _ k below Cons.prems(4)] by simp
    qed
  qed
qed

section \<open>A file with front matter is left alone\<close>

text \<open>
  C5: when the first line of a file is the delimiter \<^verbatim>\<open>---\<close>, a run of \<^verbatim>\<open>main\<close> over any list
  of files, whether it ends normally or with an exception, leaves the content of that file
  as it was; and when the run ends normally over files below the documentation root, the
  file's relative path is not in \<^verbatim>\<open>updated_files\<close>.
\<close>

theorem delimiter_file_untouched:
  assumes "fs p = Some content"
    and "takeWhile (\<lambda>c. c \<noteq> newline) content = ''---''"
    and "main today fs md_files = (fs', res)"
  shows "fs' p = Some content
       \<and> (\<forall>updated_files rel. res = Inr updated_files \<and> p \<in> set md_files
            \<and> (\<forall>f\<in>set md_files. prefix (docs_dir @ ''/'') f)
            \<and> relative_to p docs_dir = Some rel \<longrightarrow> rel \<notin> set updated_files)"
proof -
  have "str_strip (readline content) = ''---''"
    using assms(2) strip_readline[of content] strip_delimiter by simp
  then have marked: "has_frontmatter fs p = Inr True"
    using assms(1) by (simp add: has_frontmatter_True)
  have run: "main_loop today fs md_files [] = (fs', res)" using assms(3) by (simp add: main_def)
  have kept: "fs' p = Some content"
    using main_loop_keeps_marked[OF run marked] assms(1) by simp
  have "rel \<notin> set updated_files"
    if h: "res = Inr updated_files" "p \<in> set md_files"
      "\<forall>f\<in>set md_files. prefix (docs_dir @ ''/'') f" "relative_to p docs_dir = Some rel"
    for updated_files rel
  proof -
    have below: "prefix (docs_dir @ ''/'') p" using h(2) h(3) by blast
    then have "rel = drop (length docs_dir + 1) p" using relative_to_below[OF below] h(4) by simp
    moreover have "drop (length docs_dir + 1) p \<notin> set updated_files"
      using main_loop_not_counted[OF run[unfolded h(1)] marked _ below] h(3) by simp
    ultimately show ?thesis by simp
  qed
  then show ?thesis using kept by blast
qed

text \<open>C5 on a run over two files, the first of which starts with the delimiter.\<close>

theorem delimiter_file_untouched_witness:
  "[''/home/devuser/workspace/project2/docs/adr/notes.md'' \<mapsto> ''---\<newline>title: kept\<newline>---\<newline>'',
    ''/home/devuser/workspace/project2/docs/guide.md'' \<mapsto> ''hello'']
      ''/home/devuser/workspace/project2/docs/adr/notes.md'' = Some ''---\<newline>title: kept\<newline>---\<newline>''
   \<and> takeWhile (\<lambda>c. c \<noteq> newline) ''---\<newline>title: kept\<newline>---\<newline>'' = ''---''
   \<and> fst (main ''2026-11-03''
        [''/home/devuser/workspace/project2/docs/adr/notes.md'' \<mapsto> ''---\<newline>title: kept\<newline>---\<newline>'',
         ''/home/devuser/workspace/project2/docs/guide.md'' \<mapsto> ''hello'']
        [''/home/devuser/workspace/project2/docs/adr/notes.md'',
         ''/home/devuser/workspace/project2/docs/guide.md''])
        ''/home/devuser/workspace/project2/docs/adr/notes.md'' = Some ''---\<newline>title: kept\<newline>---\<newline>''
   \<and> snd (main ''2026-11-03''
        [''/home/devuser/workspace/project2/docs/adr/notes.md'' \<mapsto> ''---\<newline>title: kept\<newline>---\<newline>'',
         ''/home/devuser/workspace/project2/docs/guide.md'' \<mapsto> ''hello'']
        [''/home/devuser/workspace/project2/docs/adr/notes.md'',
         ''/home/devuser/workspace/project2/docs/guide.md'']) = Inr [''guide.md'']"
proof -
  let ?p = "''/home/devuser/workspace/project2/docs/adr/notes.md''"
  let ?q = "''/home/devuser/workspace/project2/docs/guide.md''"
  let ?c = "''---\<newline>title: kept\<newline>---\<newline>''"
  let ?fs = "[?p \<mapsto> ?c, ?q \<mapsto> ''hello'']"
  have h1: "?fs ?p = Some ?c" by simp
  have h2: "takeWhile (\<lambda>c. c \<noteq> newline) ?c = ''---''" by code_simp
  have h3: "main ''2026-11-03'' ?fs [?p, ?q]
      = (fst (main ''2026-11-03'' ?fs [?p, ?q]), snd (main ''2026-11-03'' ?fs [?p, ?q]))"
    by simp
  have kept: "fst (main ''2026-11-03'' ?fs [?p, ?q]) ?p = Some ?c"
    using delimiter_file_untouched[OF h1 h2 h3] by blast
  have s1: "str_strip (readline ?c) = ''---''" by code_simp
  have s2: "str_strip (readline ''hello'') \<noteq> ''---''" by code_simp
  have r: "relative_to ?q docs_dir = Some ''guide.md''" by code_simp
  have "snd (main ''2026-11-03'' ?fs [?p, ?q]) = Inr [''guide.md'']"
    using s1 s2 r by (simp add: main_def add_frontmatter_to_file_cases)
  then show ?thesis using h1 h2 kept by blast
qed

section \<open>A second run\<close>

text \<open>
  C6: after a run that ended normally, every file of the run is marked, and a second run
  over the same files (in any order, on any date) leaves the file system as it is and ends
  with an empty \<^verbatim>\<open>updated_files\<close>.
\<close>

theorem second_run_changes_nothing:
  assumes "main today fs md_files = (fs1, Inr updated_files)"
    and "set md_files2 = set md_files"
  shows "main today2 fs1 md_files2 = (fs1, Inr [])
       \<and> (\<forall>f\<in>set md_files. has_frontmatter fs1 f = Inr True)"
proof -
  have run: "main_loop today fs md_files [] = (fs1, Inr updated_files)"
    using assms(1) by (simp add: main_def)
  have marked: "\<And>f. f \<in> set md_files \<Longrightarrow> has_frontmatter fs1 f = Inr True"
    using main_loop_marks_all[OF run] .
  then have "main_loop today2 fs1 md_files2 [] = (fs1, Inr [])"
    using assms(2) by (intro main_loop_all_marked) simp
  then show ?thesis using marked by (simp add: main_def)
qed

text \<open>C6 on a run over one file without front matter.\<close>

theorem second_run_changes_nothing_witness:
  "main ''2026-11-03'' [''/home/devuser/workspace/project2/docs/guide.md'' \<mapsto> ''hello'']
        [''/home/devuser/workspace/project2/docs/guide.md'']
     = ([''/home/devuser/workspace/project2/docs/guide.md'' \<mapsto>
           create_frontmatter ''2026-11-03'' ''/home/devuser/workspace/project2/docs/guide.md'' ''hello''
             @ ''hello''],
        Inr [''guide.md''])
   \<and> main ''2026-11-04''
        [''/home/devuser/workspace/project2/docs/guide.md'' \<mapsto>
           create_frontmatter ''2026-11-03'' ''/home/devuser/workspace/project2/docs/guide.md'' ''hello''
             @ ''hello'']
        [''/home/devuser/workspace/project2/docs/guide.md'']
     = ([''/home/devuser/workspace/project2/docs/guide.md'' \<mapsto>
           create_frontmatter ''2026-11-03'' ''/home/devuser/workspace/project2/docs/guide.md'' ''hello''
             @ ''hello''],
        Inr [])"
proof -
  let ?q = "''/home/devuser/workspace/project2/docs/guide.md''"
  have s2: "str_strip (readline ''hello'') \<noteq> ''---''" by code_simp
  have r: "relative_to ?q docs_dir = Some ''guide.md''" by code_simp
  have m: "main ''2026-11-03'' [?q \<mapsto> ''hello''] [?q]
     = ([?q \<mapsto> create_frontmatter ''2026-11-03'' ?q ''hello'' @ ''hello''], Inr [''guide.md''])"
    using s2 r by (simp add: main_def add_frontmatter_to_file_cases)
  have e: "set [?q] = set [?q]" by simp
  show ?thesis using m second_run_changes_nothing[OF m e, of "''2026-11-04''"] by blast
qed

section \<open>When a file is skipped\<close>

text \<open>
  C7, as the claim states it, fails: \<^verbatim>\<open>has_frontmatter\<close> compares the first line after
  \<^verbatim>\<open>strip()\<close>, so a file whose first line is the delimiter followed by a space is skipped
  although that line is not exactly the delimiter.
\<close>

theorem skip_iff_exact_delimiter_counterexample:
  "takeWhile (\<lambda>c. c \<noteq> newline) ''--- \<newline>notes'' \<noteq> ''---''
   \<and> add_frontmatter_to_file ''2026-11-03''
        [''/home/devuser/workspace/project2/docs/guide.md'' \<mapsto> ''--- \<newline>notes'']
        ''/home/devuser/workspace/project2/docs/guide.md''
     = ([''/home/devuser/workspace/project2/docs/guide.md'' \<mapsto> ''--- \<newline>notes''], Inr False)"
proof -
  have a: "takeWhile (\<lambda>c. c \<noteq> newline) ''--- \<newline>notes'' \<noteq> ''---''" by code_simp
  have s: "str_strip (readline ''--- \<newline>notes'') = ''---''" by code_simp
  show ?thesis using a s by (simp add: add_frontmatter_to_file_cases)
qed

text \<open>
  C7, amended: a file that can be read is skipped (no write, \<^verbatim>\<open>False\<close> returned, so not
  counted) if and only if its first line, with the whitespace that \<^verbatim>\<open>strip()\<close> removes
  taken off both ends, is the delimiter \<^verbatim>\<open>---\<close>; any other file is rewritten as the rendered
  front matter followed by its content, and \<^verbatim>\<open>True\<close> is returned.
\<close>

theorem skip_iff_stripped_delimiter:
  assumes "fs p = Some content"
  shows "add_frontmatter_to_file today fs p =
     (if str_strip (takeWhile (\<lambda>c. c \<noteq> newline) content) = ''---''
      then (fs, Inr False)
      else (fs(p \<mapsto> create_frontmatter today p content @ content), Inr True))"
  using assms by (simp add: add_frontmatter_to_file_cases strip_readline)

text \<open>C7, amended, on a file without front matter, which is rewritten, and on a file whose
  first line is the delimiter followed by a no-break space, which is skipped.\<close>

theorem skip_iff_stripped_delimiter_witness:
  "[''/home/devuser/workspace/project2/docs/guide.md'' \<mapsto> ''hello'']
      ''/home/devuser/workspace/project2/docs/guide.md'' = Some ''hello''
   \<and> add_frontmatter_to_file ''2026-11-03''
        [''/home/devuser/workspace/project2/docs/guide.md'' \<mapsto> ''hello'']
        ''/home/devuser/workspace/project2/docs/guide.md''
     = ([''/home/devuser/workspace/project2/docs/guide.md'' \<mapsto>
           create_frontmatter ''2026-11-03'' ''/home/devuser/workspace/project2/docs/guide.md'' ''hello''
             @ ''hello''],
        Inr True)
   \<and> [''/home/devuser/workspace/project2/docs/guide.md'' \<mapsto> ''---'' @ CHR 0xA0 # ''\<newline>notes'']
      ''/home/devuser/workspace/project2/docs/guide.md'' = Some (''---'' @ CHR 0xA0 # ''\<newline>notes'')
   \<and> add_frontmatter_to_file ''2026-11-03''
        [''/home/devuser/workspace/project2/docs/guide.md'' \<mapsto> ''---'' @ CHR 0xA0 # ''\<newline>notes'']
        ''/home/devuser/workspace/project2/docs/guide.md''
     = ([''/home/devuser/workspace/project2/docs/guide.md'' \<mapsto> ''---'' @ CHR 0xA0 # ''\<newline>notes''],
        Inr False)"
proof -
  let ?q = "''/home/devuser/workspace/project2/docs/guide.md''"
  let ?c = "''---'' @ CHR 0xA0 # ''\<newline>notes''"
  have h: "[?q \<mapsto> ''hello''] ?q = Some ''hello''" by simp
  have s: "str_strip (takeWhile (\<lambda>c. c \<noteq> newline) ''hello'') \<noteq> ''---''" by code_simp
  have a: "add_frontmatter_to_file ''2026-11-03'' [?q \<mapsto> ''hello''] ?q
     = ([?q \<mapsto> create_frontmatter ''2026-11-03'' ?q ''hello'' @ ''hello''], Inr True)"
    using h s skip_iff_stripped_delimiter[of "[?q \<mapsto> ''hello'']" ?q "''hello''" "''2026-11-03''"]
    by simp
  have h': "[?q \<mapsto> ?c] ?q = Some ?c" by simp
  have s': "str_strip (takeWhile (\<lambda>c. c \<noteq> newline) ?c) = ''---''" by code_simp
  have b: "add_frontmatter_to_file ''2026-11-03'' [?q \<mapsto> ?c] ?q = ([?q \<mapsto> ?c], Inr False)"
  proof -
    have "add_frontmatter_to_file ''2026-11-03'' [?q \<mapsto> ?c] ?q =
       (if str_strip (takeWhile (\<lambda>c. c \<noteq> newline) ?c) = ''---''
        then ([?q \<mapsto> ?c], Inr False)
        else ([?q \<mapsto> ?c](?q \<mapsto> create_frontmatter ''2026-11-03'' ?q ?c @ ?c), Inr True))"
      using h' skip_iff_stripped_delimiter[of "[?q \<mapsto> ?c]" ?q ?c "''2026-11-03''"] by blast
    then show ?thesis by (simp only: s' if_True HOL.refl)
  qed
  show ?thesis using h a h' b by blast
qed

section \<open>The inferred title and description\<close>

text \<open>
  C8: the claim is that the title of a file without curated entry is the text of its first
  level-1 heading. In the pattern of \<^verbatim>\<open>extract_title_from_heading\<close> the class \<^verbatim>\<open>\s\<close> also
  matches newlines, so a line that holds only \<^verbatim>\<open>#\<close> makes the next line the title: for the
  content below the title is \<^verbatim>\<open>Intro\<close>, which is no heading, and not \<^verbatim>\<open>Real Title\<close>.
\<close>

theorem title_not_first_heading:
  "extract_title_from_heading ''#\<newline>Intro\<newline># Real Title\<newline>'' = Some ''Intro''
   \<and> title (resolve_metadata ''/home/devuser/workspace/project2/docs/notes.md''
        ''#\<newline>Intro\<newline># Real Title\<newline>'') = ''Intro''"
  by code_simp

text \<open>
  C9: the claim is that the description is the first paragraph after the leading heading,
  or \<^verbatim>\<open><title> documentation\<close> when there is none. For a heading followed by one paragraph
  that no blank line and no level-2 heading follows, the pattern fails with the heading
  group, is retried without it, and the description is the heading line itself.
\<close>

theorem description_is_heading:
  "description (resolve_metadata ''/home/devuser/workspace/project2/docs/notes.md''
      ''# Title\<newline>\<newline>Only paragraph.\<newline>'') = ''# Title''"
  by code_simp

end
